theory Spec2Isabelle
  imports Main "HOL-Library.Word"
begin

section \<open>C strings and constants of elevator.h\<close>

text \<open>
  A C string is modelled by the list of the characters that stand before its
  terminating NUL. A fixed-size character array of the shared record that holds no NUL
  at all is modelled by a list as long as the array, which is what
  \<open>is_null_terminated\<close> tests for. Pointers are never NULL in the model, so the
  NULL guards of the source are left out.
\<close>

definition MAX_FLOOR_LEN :: nat where
  "MAX_FLOOR_LEN = 4"

definition MAX_STATUS_LEN :: nat where
  "MAX_STATUS_LEN = 8"



text \<open>
  \<open>strcmp\<close> compares byte by byte as unsigned characters; the shorter string is the
  smaller one when it is a prefix. C only fixes the sign of the result: the model
  returns -1, 0 or 1.
\<close>

fun strcmp :: "string \<Rightarrow> string \<Rightarrow> int" where
  "strcmp [] [] = 0"
| "strcmp [] (b # bs) = -1"
| "strcmp (a # as) [] = 1"
| "strcmp (a # as) (b # bs) =
     (if (of_char a :: nat) < of_char b then -1
      else if (of_char a :: nat) > of_char b then 1
      else strcmp as bs)"

definition strncmp :: "string \<Rightarrow> string \<Rightarrow> nat \<Rightarrow> int" where
  "strncmp a b n = strcmp (take n a) (take n b)"

text \<open>
  \<open>strncpy(dest, src, dest_size - 1); dest[dest_size - 1] = '\0'\<close>, the idiom of
  \<open>safe_copy_status\<close> and \<open>safe_copy_floor\<close>: the destination holds the first
  \<open>dest_size - 1\<close> characters of the source.
\<close>

definition safe_copy_status :: "string \<Rightarrow> nat \<Rightarrow> string" where
  "safe_copy_status src dest_size = take (dest_size - 1) src"

definition safe_copy_floor :: "string \<Rightarrow> nat \<Rightarrow> string" where
  "safe_copy_floor src dest_size = take (dest_size - 1) src"

section \<open>Floor model (utils.c)\<close>

definition isspace_c :: "char \<Rightarrow> bool" where
  "isspace_c c = (c = CHR '' '' \<or> c = CHR 0x09 \<or> c = CHR 0x0A \<or> c = CHR 0x0B
                  \<or> c = CHR 0x0C \<or> c = CHR 0x0D)"

definition isdigit_c :: "char \<Rightarrow> bool" where
  "isdigit_c c = (48 \<le> (of_char c :: nat) \<and> (of_char c :: nat) \<le> 57)"

definition digit_val :: "char \<Rightarrow> int" where
  "digit_val c = int (of_char c) - 48"

definition digits_val :: "string \<Rightarrow> int" where
  "digits_val ds = foldl (\<lambda>a c. a * 10 + digit_val c) 0 ds"

text \<open>
  \<open>strtol(s, &endptr, 10)\<close>: leading white space is skipped, one sign is accepted,
  then the longest run of decimal digits is read. The result is the value and the
  rest of the string at \<open>endptr\<close>; with no digit at all the value is 0 and
  \<open>endptr\<close> is the start of the string. The clamping to the range of \<open>long\<close> is
  left out: \<open>parse_floor\<close> passes at most three characters.
\<close>

definition strtol :: "string \<Rightarrow> int \<times> string" where
  "strtol s =
     (let s1 = dropWhile isspace_c s;
          neg = (case s1 of [] \<Rightarrow> False | c # _ \<Rightarrow> c = CHR ''-'');
          s2 = (case s1 of [] \<Rightarrow> []
                | c # cs \<Rightarrow> if c = CHR ''-'' \<or> c = CHR ''+'' then cs else s1);
          ds = takeWhile isdigit_c s2;
          v = digits_val ds
      in if ds = [] then (0, s)
         else (if neg then - v else v, dropWhile isdigit_c s2))"

text \<open>
  The result of \<open>parse_floor\<close>. The fields \<open>ok\<close> and \<open>is_basement\<close>, which the
  source keeps as \<open>int\<close> 0 or 1, are booleans, as are the results of the predicates
  below.
\<close>

record floor_info =
  ok :: bool
  numeric :: int
  is_basement :: bool

text \<open>\<open>floor_info info = {0, 0, 0}\<close>, returned on every rejection.\<close>

definition floor_invalid :: floor_info where
  "floor_invalid = \<lparr>ok = False, numeric = 0, is_basement = False\<rparr>"

definition parse_floor :: "string \<Rightarrow> floor_info" where
  "parse_floor floor_str =
     (if length floor_str = 0 \<or> length floor_str > 3 then floor_invalid
      else if hd floor_str = CHR ''B'' then
        (if length floor_str < 2 then floor_invalid
         else case strtol (tl floor_str) of (floor_num, endptr) \<Rightarrow>
           if endptr \<noteq> [] \<or> floor_num < 1 \<or> floor_num > 99 then floor_invalid
           else if floor_str ! 1 = CHR ''0'' \<and> floor_num \<noteq> 0 then floor_invalid
           else \<lparr>ok = True, numeric = - floor_num, is_basement = True\<rparr>)
      else
        (case strtol floor_str of (floor_num, endptr) \<Rightarrow>
           if endptr \<noteq> [] \<or> floor_num < 1 \<or> floor_num > 999 then floor_invalid
           else if floor_str ! 0 = CHR ''0'' \<and> floor_num \<noteq> 0 then floor_invalid
           else \<lparr>ok = True, numeric = floor_num, is_basement = False\<rparr>))"

definition compare_floors :: "string \<Rightarrow> string \<Rightarrow> int" where
  "compare_floors floor1 floor2 =
     (let f1 = parse_floor floor1; f2 = parse_floor floor2
      in if ok f1 \<and> ok f2 then
           (if numeric f1 < numeric f2 then -1
            else if numeric f1 > numeric f2 then 1
            else 0)
         else 0)"

definition is_valid_floor_range :: "string \<Rightarrow> string \<Rightarrow> string \<Rightarrow> bool" where
  "is_valid_floor_range floor lowest highest =
     (compare_floors floor lowest \<ge> 0 \<and> compare_floors floor highest \<le> 0)"

text \<open>\<open>snprintf(output, 4, "%d", n)\<close> for a positive \<open>n\<close>: its decimal digits.\<close>

fun dec_digits :: "nat \<Rightarrow> string" where
  "dec_digits n =
     (if n < 10 then [char_of (48 + n)]
      else dec_digits (n div 10) @ [char_of (48 + n mod 10)])"

declare dec_digits.simps [simp del]

text \<open>
  \<open>snprintf\<close> returns the length of the whole text; the source empties the output
  when that is 4 or more.
\<close>

definition snprintf4 :: "string \<Rightarrow> string" where
  "snprintf4 s = (if length s \<ge> 4 then [] else s)"

definition floor_to_string :: "int \<Rightarrow> bool \<Rightarrow> string" where
  "floor_to_string num is_base =
     (if is_base \<and> num < 0 then
        (let pos_val = - num
         in if pos_val \<ge> 1 \<and> pos_val \<le> 99
            then snprintf4 (CHR ''B'' # dec_digits (nat pos_val))
            else [])
      else if \<not> is_base \<and> num \<ge> 1 then
        (if num \<ge> 1 \<and> num \<le> 999 then snprintf4 (dec_digits (nat num)) else [])
      else [])"

text \<open>
  \<open>next_floor_towards\<close> returns 0 and fills the output, or returns -1: \<open>Some\<close> of
  the output, or \<open>None\<close>. The direction is +1 when the destination is above the
  current floor and -1 in every other case.
\<close>

definition next_floor_towards ::
  "string \<Rightarrow> string \<Rightarrow> string \<Rightarrow> string \<Rightarrow> nat \<Rightarrow> string option" where
  "next_floor_towards current destination lowest highest output_size =
     (if output_size < MAX_FLOOR_LEN then None
      else
        let curr = parse_floor current; dest = parse_floor destination
        in if ok curr \<and> ok dest then
             (let direction = (if numeric dest > numeric curr then 1 else - 1);
                  next_numeric = numeric curr + direction;
                  output = (if next_numeric < 0 then floor_to_string next_numeric True
                            else floor_to_string next_numeric False)
              in if is_valid_floor_range output lowest highest then Some output
                 else None)
           else None)"

section \<open>The shared record of a car (elevator.h)\<close>

text \<open>
  The mutex and the condition variable of the record are not modelled: every function
  below that takes and returns the record is one critical section, run with the mutex
  held.
\<close>

type_synonym uint8_t = "8 word"

record car_shared_mem =
  current_floor :: string
  destination_floor :: string
  status :: string
  open_button :: uint8_t
  close_button :: uint8_t
  safety_system :: uint8_t
  door_obstruction :: uint8_t
  overload :: uint8_t
  emergency_stop :: uint8_t
  individual_service_mode :: uint8_t
  emergency_mode :: uint8_t

section \<open>Safety monitor (safety.c)\<close>

definition VALID_STATUSES :: "string list" where
  "VALID_STATUSES = [''Opening'', ''Open'', ''Closing'', ''Closed'', ''Between'']"

definition is_valid_status :: "string \<Rightarrow> bool" where
  "is_valid_status st = list_ex (\<lambda>v. strncmp st v MAX_STATUS_LEN = 0) VALID_STATUSES"

definition is_valid_uint8_value :: "uint8_t \<Rightarrow> uint8_t \<Rightarrow> bool" where
  "is_valid_uint8_value v max_val = (v \<le> max_val)"

definition is_null_terminated :: "string \<Rightarrow> nat \<Rightarrow> bool" where
  "is_null_terminated str max_len = (length str < max_len)"

definition validate_floor_string :: "string \<Rightarrow> bool" where
  "validate_floor_string floor_str =
     (if is_null_terminated floor_str MAX_FLOOR_LEN then ok (parse_floor floor_str)
      else False)"

definition validate_obstruction_status_consistency :: "car_shared_mem \<Rightarrow> bool" where
  "validate_obstruction_status_consistency shm =
     (if door_obstruction shm = 1
      then strncmp (status shm) ''Opening'' MAX_STATUS_LEN = 0
           \<or> strncmp (status shm) ''Closing'' MAX_STATUS_LEN = 0
      else True)"

definition perform_safety_validation :: "car_shared_mem \<Rightarrow> bool" where
  "perform_safety_validation shm =
     (if \<not> is_null_terminated (current_floor shm) MAX_FLOOR_LEN
         \<or> \<not> is_null_terminated (destination_floor shm) MAX_FLOOR_LEN
         \<or> \<not> is_null_terminated (status shm) MAX_STATUS_LEN then False
      else if \<not> validate_floor_string (current_floor shm)
         \<or> \<not> validate_floor_string (destination_floor shm) then False
      else if \<not> is_valid_status (status shm) then False
      else if \<not> is_valid_uint8_value (open_button shm) 1
         \<or> \<not> is_valid_uint8_value (close_button shm) 1
         \<or> \<not> is_valid_uint8_value (door_obstruction shm) 1
         \<or> \<not> is_valid_uint8_value (overload shm) 1
         \<or> \<not> is_valid_uint8_value (emergency_stop shm) 1
         \<or> \<not> is_valid_uint8_value (individual_service_mode shm) 1
         \<or> \<not> is_valid_uint8_value (emergency_mode shm) 1 then False
      else if \<not> is_valid_uint8_value (safety_system shm) 3 then False
      else if \<not> validate_obstruction_status_consistency shm then False
      else True)"

text \<open>
  \<open>handle_safety_violation\<close> writes the message and a newline to the standard
  output and sets \<open>emergency_mode\<close>: the new record and the line written.
\<close>

definition handle_safety_violation ::
  "car_shared_mem \<Rightarrow> string \<Rightarrow> car_shared_mem \<times> string" where
  "handle_safety_violation shm message = (shm\<lparr>emergency_mode := 1\<rparr>, message)"

text \<open>
  One cycle of the monitor, after its wait on the condition variable. The result is
  the record, the lines written, and \<open>changed\<close> (whether the condition variable is
  broadcast). The source runs the five checks in this order, each on the record the
  one before left.
\<close>

definition process_safety_actions ::
  "car_shared_mem \<Rightarrow> car_shared_mem \<times> string list \<times> bool" where
  "process_safety_actions shm0 =
     (let heartbeat = (safety_system shm0 = 0);
          shm1 = (if heartbeat then shm0\<lparr>safety_system := 1\<rparr> else shm0);
          obstructed = (door_obstruction shm1 = 1
                        \<and> strncmp (status shm1) ''Closing'' MAX_STATUS_LEN = 0);
          shm2 = (if obstructed
                  then shm1\<lparr>status := take (MAX_STATUS_LEN - 1) ''Opening''\<rparr>
                  else shm1);
          stopped = (emergency_stop shm2 = 1 \<and> emergency_mode shm2 = 0);
          v3 = handle_safety_violation shm2 ''The emergency stop button has been pressed!'';
          shm3 = (if stopped then (fst v3)\<lparr>emergency_stop := 0\<rparr> else shm2);
          overloaded = (overload shm3 = 1 \<and> emergency_mode shm3 = 0);
          v4 = handle_safety_violation shm3 ''The overload sensor has been tripped!'';
          shm4 = (if overloaded then fst v4 else shm3);
          corrupt = (if emergency_mode shm4 \<noteq> 1 then \<not> perform_safety_validation shm4
                     else False);
          v5 = handle_safety_violation shm4 ''Data consistency error!'';
          shm5 = (if corrupt then fst v5 else shm4)
      in (shm5,
          (if stopped then [snd v3] else []) @ (if overloaded then [snd v4] else [])
            @ (if corrupt then [snd v5] else []),
          heartbeat \<or> obstructed \<or> stopped \<or> overloaded \<or> corrupt))"

section \<open>Car process (car.c)\<close>

subsection \<open>Network thread\<close>

definition should_connect :: "car_shared_mem \<Rightarrow> bool" where
  "should_connect shm =
     (safety_system shm > 0 \<and> safety_system shm < 3
      \<and> individual_service_mode shm = 0 \<and> emergency_mode shm = 0)"

text \<open>
  The critical section run on a message that starts with \<open>FLOOR \<close>; \<open>floor\<close> is
  \<open>msg + 6\<close>.
\<close>

definition network_floor_message :: "car_shared_mem \<Rightarrow> string \<Rightarrow> car_shared_mem" where
  "network_floor_message shm floor =
     (if strncmp (status shm) ''Between'' MAX_STATUS_LEN \<noteq> 0 then
        (if strncmp floor (current_floor shm) MAX_FLOOR_LEN = 0 then
           (if strncmp (status shm) ''Closed'' MAX_STATUS_LEN = 0
            then shm\<lparr>status := safe_copy_status ''Opening'' MAX_STATUS_LEN\<rparr>
            else shm)
         else
           (if ok (parse_floor floor)
            then shm\<lparr>destination_floor := safe_copy_floor floor MAX_FLOOR_LEN\<rparr>
            else shm))
      else shm)"

definition network_message :: "car_shared_mem \<Rightarrow> string \<Rightarrow> car_shared_mem" where
  "network_message shm msg =
     (if strncmp msg ''FLOOR '' 6 = 0 then network_floor_message shm (drop 6 msg)
      else shm)"

text \<open>
  The heartbeat section at the end of a connected cycle: the record and
  \<open>entered_emergency\<close>.
\<close>

definition network_heartbeat :: "car_shared_mem \<Rightarrow> car_shared_mem \<times> bool" where
  "network_heartbeat shm =
     (let shm1 = (if safety_system shm < 3
                  then shm\<lparr>safety_system := safety_system shm + 1\<rparr> else shm)
      in if safety_system shm1 \<ge> 3 then (shm1\<lparr>emergency_mode := 1\<rparr>, True)
         else (shm1, False))"

subsection \<open>Main loop\<close>

definition handle_open_button :: "car_shared_mem \<Rightarrow> car_shared_mem" where
  "handle_open_button shm =
     (if open_button shm \<noteq> 0 then
        (let shm1 = shm\<lparr>open_button := 0\<rparr>
         in if strncmp (status shm1) ''Closed'' MAX_STATUS_LEN = 0
               \<or> strncmp (status shm1) ''Closing'' MAX_STATUS_LEN = 0
            then shm1\<lparr>status := safe_copy_status ''Opening'' MAX_STATUS_LEN\<rparr>
            else shm1)
      else shm)"

definition handle_close_button :: "car_shared_mem \<Rightarrow> car_shared_mem" where
  "handle_close_button shm =
     (if close_button shm \<noteq> 0 then
        (let shm1 = shm\<lparr>close_button := 0\<rparr>
         in if strncmp (status shm1) ''Open'' MAX_STATUS_LEN = 0
            then shm1\<lparr>status := safe_copy_status ''Closing'' MAX_STATUS_LEN\<rparr>
            else shm1)
      else shm)"

text \<open>
  An iteration of the main loop holds the mutex twice: before its delay and after it.
  \<open>car_phase\<close> is what the first section leaves for the second: the branch taken and
  the local variable read under the first lock.
\<close>

datatype car_phase =
    WaitOpening
  | WaitOpen bool
  | WaitClosing
  | WaitBetween uint8_t
  | NoWait

definition car_main_begin ::
  "string \<Rightarrow> string \<Rightarrow> car_shared_mem \<Rightarrow> car_shared_mem \<times> car_phase" where
  "car_main_begin lowest highest shm0 =
     (let shm = handle_close_button (handle_open_button shm0)
      in if strncmp (status shm) ''Opening'' MAX_STATUS_LEN = 0 then (shm, WaitOpening)
         else if strncmp (status shm) ''Open'' MAX_STATUS_LEN = 0 then
           (if open_button shm \<noteq> 0 then (shm\<lparr>open_button := 0\<rparr>, WaitOpen True)
            else (shm, WaitOpen False))
         else if strncmp (status shm) ''Closing'' MAX_STATUS_LEN = 0 then (shm, WaitClosing)
         else if strncmp (status shm) ''Closed'' MAX_STATUS_LEN = 0 then
           (let need_move = (strncmp (current_floor shm) (destination_floor shm)
                               MAX_FLOOR_LEN \<noteq> 0);
                emergency = emergency_mode shm;
                valid_dest = (if need_move
                              then is_valid_floor_range (destination_floor shm) lowest highest
                              else True);
                shm1 = (if need_move \<and> \<not> valid_dest
                        then shm\<lparr>destination_floor :=
                               safe_copy_floor (current_floor shm) MAX_FLOOR_LEN\<rparr>
                        else shm)
            in if need_move \<and> emergency = 0 \<and> valid_dest
               then (shm1\<lparr>status := safe_copy_status ''Between'' MAX_STATUS_LEN\<rparr>, NoWait)
               else (shm1, NoWait))
         else if strncmp (status shm) ''Between'' MAX_STATUS_LEN = 0
           then (shm, WaitBetween (individual_service_mode shm))
         else (shm, NoWait))"

text \<open>
  The section after the delay. \<open>elapsed\<close> says whether the dwell time of an open door
  is over (\<open>elapsed_ms >= car.delay_ms\<close>); the clock itself is not modelled.
\<close>

definition car_main_finish ::
  "string \<Rightarrow> string \<Rightarrow> car_phase \<Rightarrow> bool \<Rightarrow> car_shared_mem \<Rightarrow> car_shared_mem" where
  "car_main_finish lowest highest phase elapsed shm =
     (case phase of
        WaitOpening \<Rightarrow>
          if strncmp (status shm) ''Opening'' MAX_STATUS_LEN = 0
          then shm\<lparr>status := safe_copy_status ''Open'' MAX_STATUS_LEN\<rparr> else shm
      | WaitOpen extended \<Rightarrow>
          if elapsed then
            (if strncmp (status shm) ''Open'' MAX_STATUS_LEN = 0
                \<and> individual_service_mode shm = 0
             then shm\<lparr>status := safe_copy_status ''Closing'' MAX_STATUS_LEN\<rparr> else shm)
          else shm
      | WaitClosing \<Rightarrow>
          if strncmp (status shm) ''Closing'' MAX_STATUS_LEN = 0
          then shm\<lparr>status := safe_copy_status ''Closed'' MAX_STATUS_LEN\<rparr> else shm
      | WaitBetween service_mode \<Rightarrow>
          if strncmp (status shm) ''Between'' MAX_STATUS_LEN = 0 then
            (let shm1 =
                   (case next_floor_towards (current_floor shm) (destination_floor shm)
                           lowest highest MAX_FLOOR_LEN of
                      Some next_floor \<Rightarrow>
                        shm\<lparr>current_floor := safe_copy_floor next_floor MAX_FLOOR_LEN\<rparr>
                    | None \<Rightarrow> shm)
             in if strncmp (current_floor shm1) (destination_floor shm1) MAX_FLOOR_LEN = 0
                then (if service_mode \<noteq> 0
                      then shm1\<lparr>status := safe_copy_status ''Closed'' MAX_STATUS_LEN\<rparr>
                      else shm1\<lparr>status := safe_copy_status ''Opening'' MAX_STATUS_LEN\<rparr>)
                else shm1)
          else shm
      | NoWait \<Rightarrow> shm)"

section \<open>In-car button tool (internal.c)\<close>

text \<open>
  The critical section of the tool for one operation: the record and the line printed,
  if any.
\<close>

definition internal_main :: "car_shared_mem \<Rightarrow> string \<Rightarrow> car_shared_mem \<times> string list" where
  "internal_main shm operation =
     (if strcmp operation ''open'' = 0 then (shm\<lparr>open_button := 1\<rparr>, [])
      else if strcmp operation ''close'' = 0 then (shm\<lparr>close_button := 1\<rparr>, [])
      else if strcmp operation ''stop'' = 0 then (shm\<lparr>emergency_stop := 1\<rparr>, [])
      else if strcmp operation ''service_on'' = 0
        then (shm\<lparr>individual_service_mode := 1, emergency_mode := 0\<rparr>, [])
      else if strcmp operation ''service_off'' = 0
        then (shm\<lparr>individual_service_mode := 0\<rparr>, [])
      else if strcmp operation ''up'' = 0 \<or> strcmp operation ''down'' = 0 then
        (if individual_service_mode shm = 0
           then (shm, [''Operation only allowed in service mode.''])
         else if strncmp (status shm) ''Closed'' MAX_STATUS_LEN \<noteq> 0 then
           (if strncmp (status shm) ''Open'' MAX_STATUS_LEN = 0
               \<or> strncmp (status shm) ''Opening'' MAX_STATUS_LEN = 0
               \<or> strncmp (status shm) ''Closing'' MAX_STATUS_LEN = 0
            then (shm, [''Operation not allowed while doors are open.''])
            else (shm, [''Operation not allowed while elevator is moving.'']))
         else
           (let current_info = parse_floor (current_floor shm)
            in if ok current_info then
                 (let direction = (if strcmp operation ''up'' = 0 then 1 else - 1);
                      stepped = numeric current_info + direction;
                      next_numeric = (if stepped = 0 then direction else stepped);
                      next_floor = (if next_numeric < 0
                                    then floor_to_string next_numeric True
                                    else floor_to_string next_numeric False)
                  in (shm\<lparr>destination_floor := safe_copy_floor next_floor MAX_FLOOR_LEN\<rparr>,
                      []))
               else (shm, [])))
      else (shm, [''Invalid operation.'']))"

section \<open>Interleavings of the critical sections\<close>

text \<open>
  Every write to the shared record happens in one of these critical sections. An
  \<open>event\<close> names one of them with what it reads from outside the record; a run is
  any sequence of events, which covers every interleaving of the car's two threads,
  the monitor and the button tool.
\<close>

datatype event =
    CarBegin
  | CarFinish car_phase bool
  | NetMessage string
  | NetHeartbeat
  | SafetyCycle
  | Internal string

fun apply_event :: "string \<Rightarrow> string \<Rightarrow> car_shared_mem \<Rightarrow> event \<Rightarrow> car_shared_mem" where
  "apply_event lowest highest shm CarBegin = fst (car_main_begin lowest highest shm)"
| "apply_event lowest highest shm (CarFinish phase elapsed) =
     car_main_finish lowest highest phase elapsed shm"
| "apply_event lowest highest shm (NetMessage msg) = network_message shm msg"
| "apply_event lowest highest shm NetHeartbeat = fst (network_heartbeat shm)"
| "apply_event lowest highest shm SafetyCycle = fst (process_safety_actions shm)"
| "apply_event lowest highest shm (Internal operation) = fst (internal_main shm operation)"

definition run_events ::
  "string \<Rightarrow> string \<Rightarrow> car_shared_mem \<Rightarrow> event list \<Rightarrow> car_shared_mem" where
  "run_events lowest highest shm evs = foldl (apply_event lowest highest) shm evs"

section \<open>Dispatcher (controller.c)\<close>

text \<open>
  The record the dispatcher keeps per car. Its fields carry the prefix \<open>car_\<close>, as
  their names in the source are those of the shared record. The linked list between
  \<open>queue_head\<close> and \<open>queue_tail\<close> is a list: the head is its first element, the
  tail its last one.
\<close>

record car_info =
  car_name :: string
  car_lowest :: string
  car_highest :: string
  car_current_floor :: string
  car_destination_floor :: string
  car_status :: string
  car_connected :: int
  car_fd :: int
  car_queue :: "string list"


definition get_car_position_numeric :: "car_info \<Rightarrow> int" where
  "get_car_position_numeric car =
     (let current_info = parse_floor (car_current_floor car)
      in if strncmp (car_status car) ''Closing'' MAX_STATUS_LEN = 0
            \<or> strncmp (car_status car) ''Between'' MAX_STATUS_LEN = 0 then
           (let dest_info = parse_floor (car_destination_floor car)
            in if ok current_info \<and> ok dest_info
                  \<and> numeric current_info \<noteq> numeric dest_info
               then numeric current_info
                      + (if numeric dest_info > numeric current_info then 1 else - 1)
               else numeric current_info)
         else numeric current_info)"

text \<open>
  The two loops "insert among remaining floors" of \<open>add_to_queue\<close>: the node goes
  before the first queued floor at which the loop breaks, or at the end.
\<close>

fun insert_up_sweep :: "int \<Rightarrow> int \<Rightarrow> bool \<Rightarrow> string \<Rightarrow> string list \<Rightarrow> string list" where
  "insert_up_sweep car_pos new_floor skipped_first new_node [] = [new_node]"
| "insert_up_sweep car_pos new_floor skipped_first new_node (node # rest) =
     (let curr_info = parse_floor node
      in if \<not> ok curr_info then new_node # node # rest
         else if numeric curr_info < car_pos then new_node # node # rest
         else if skipped_first \<and> new_floor > numeric curr_info then new_node # node # rest
         else if \<not> skipped_first \<and> new_floor < numeric curr_info then new_node # node # rest
         else node # insert_up_sweep car_pos new_floor skipped_first new_node rest)"

fun insert_down_sweep :: "int \<Rightarrow> int \<Rightarrow> bool \<Rightarrow> string \<Rightarrow> string list \<Rightarrow> string list" where
  "insert_down_sweep car_pos new_floor skipped_first new_node [] = [new_node]"
| "insert_down_sweep car_pos new_floor skipped_first new_node (node # rest) =
     (let curr_info = parse_floor node
      in if \<not> ok curr_info then new_node # node # rest
         else if numeric curr_info > car_pos then new_node # node # rest
         else if skipped_first \<and> new_floor < numeric curr_info then new_node # node # rest
         else if \<not> skipped_first \<and> new_floor > numeric curr_info then new_node # node # rest
         else node # insert_down_sweep car_pos new_floor skipped_first new_node rest)"

text \<open>
  The scan for a queued floor of the up sweep that lies above the new floor. In
  \<open>add_to_queue\<close> below, the sweep direction of an idle car is taken from the head of
  the queue; the source's branch for an empty queue at that point is never reached,
  since an empty queue has returned before.
\<close>

definition is_down_sweep :: "int \<Rightarrow> int \<Rightarrow> string list \<Rightarrow> bool" where
  "is_down_sweep car_pos new_floor queue =
     list_ex (\<lambda>check. ok (parse_floor check) \<and> numeric (parse_floor check) > car_pos
                       \<and> new_floor < numeric (parse_floor check)) queue"

definition add_to_queue :: "car_info \<Rightarrow> string \<Rightarrow> car_info" where
  "add_to_queue car floor =
     (if list_ex (\<lambda>current. strncmp current floor MAX_FLOOR_LEN = 0) (car_queue car)
      then car
      else
        let floor_info_val = parse_floor floor
        in if ok floor_info_val then
             (let new_node = take (MAX_FLOOR_LEN - 1) floor
              in case car_queue car of
                   [] \<Rightarrow> car\<lparr>car_queue := [new_node]\<rparr>
                 | first # rest \<Rightarrow>
                     let car_pos = get_car_position_numeric car;
                         current_info = parse_floor (car_current_floor car);
                         dest_info = parse_floor (car_destination_floor car);
                         first_info = parse_floor first;
                         going_up =
                           (if ok current_info \<and> ok dest_info
                               \<and> numeric current_info \<noteq> numeric dest_info
                            then numeric dest_info > numeric current_info
                            else if ok first_info \<and> ok current_info
                            then numeric first_info > numeric current_info
                            else False);
                         new_floor = numeric floor_info_val
                     in car\<lparr>car_queue :=
                          (if going_up then
                             (if new_floor > car_pos then
                                (if is_down_sweep car_pos new_floor (first # rest)
                                 then (first # rest) @ [new_node]
                                 else if ok first_info \<and> numeric first_info > car_pos
                                         \<and> new_floor \<ge> numeric first_info
                                 then first # insert_up_sweep car_pos new_floor True new_node rest
                                 else insert_up_sweep car_pos new_floor False new_node
                                        (first # rest))
                              else (first # rest) @ [new_node])
                           else
                             (if new_floor < car_pos then
                                (if ok first_info \<and> numeric first_info < car_pos
                                    \<and> new_floor \<le> numeric first_info
                                 then first # insert_down_sweep car_pos new_floor True new_node rest
                                 else insert_down_sweep car_pos new_floor False new_node
                                        (first # rest))
                              else (first # rest) @ [new_node]))\<rparr>)
           else car)"







section \<open>Message framing (utils.c)\<close>

text \<open>
  A call of \<open>write\<close> or \<open>read\<close> returns -1 with an error number, or a count of bytes.
  What the kernel answers is not in the program's hands: the loops take the list of
  the answers to come. A loop that is still running when the list ends gives \<open>None\<close>.
\<close>

datatype errno = EINTR | EAGAIN | EIO

datatype sys_ret = Err errno | Ret nat

text \<open>
  The sending loop over a buffer: whether it finished with all bytes sent, the bytes
  put on the wire, and the answers left. A count above the bytes asked for cannot come
  from the kernel and is cut to them.
\<close>

fun write_loop :: "sys_ret list \<Rightarrow> string \<Rightarrow> (bool \<times> string \<times> sys_ret list) option" where
  "write_loop rs [] = Some (True, [], rs)"
| "write_loop [] (b # bs) = None"
| "write_loop (Err e # rs) (b # bs) =
     (if e = EINTR then write_loop rs (b # bs)
      else if e = EAGAIN then write_loop rs (b # bs)
      else Some (False, [], rs))"
| "write_loop (Ret n # rs) (b # bs) =
     (if n = 0 then Some (False, [], rs)
      else case write_loop rs (drop n (b # bs)) of
             None \<Rightarrow> None
           | Some (done, out, rs') \<Rightarrow> Some (done, take n (b # bs) @ out, rs'))"

text \<open>
  \<open>uint16_t len = htons(strlen(message))\<close>: the length modulo 65536, high byte
  first on the wire.
\<close>

definition frame_header :: "string \<Rightarrow> string" where
  "frame_header message =
     (let len = length message mod 65536
      in [char_of (len div 256), char_of (len mod 256)])"

text \<open>\<open>write_message\<close>: the value returned (0 or -1) and the bytes put on the wire.\<close>

definition write_message :: "sys_ret list \<Rightarrow> string \<Rightarrow> (int \<times> string) option" where
  "write_message script message =
     (case write_loop script (frame_header message) of
        None \<Rightarrow> None
      | Some (done1, out1, rs1) \<Rightarrow>
          if done1 then
            (case write_loop rs1 message of
               None \<Rightarrow> None
             | Some (done2, out2, rs2) \<Rightarrow> Some (if done2 then 0 else - 1, out1 @ out2))
          else Some (- 1, out1))"

text \<open>
  The receiving loop for \<open>want\<close> bytes from the bytes still to arrive on the
  connection, after which the peer has closed it: the bytes read (\<open>None\<close> when the
  loop gave up), the bytes left, and the answers left. A call delivers at most the
  bytes asked for and at most those that are there; 0 means the connection is closed.
\<close>

fun read_loop ::
  "sys_ret list \<Rightarrow> nat \<Rightarrow> string \<Rightarrow> (string option \<times> string \<times> sys_ret list) option" where
  "read_loop rs 0 wire = Some (Some [], wire, rs)"
| "read_loop [] (Suc w) wire = None"
| "read_loop (Err e # rs) (Suc w) wire =
     (if e = EINTR then read_loop rs (Suc w) wire
      else if e = EAGAIN then read_loop rs (Suc w) wire
      else Some (None, wire, rs))"
| "read_loop (Ret n # rs) (Suc w) wire =
     (let k = min n (min (Suc w) (length wire))
      in if k = 0 then Some (None, wire, rs)
         else case read_loop rs (Suc w - k) (drop k wire) of
                None \<Rightarrow> None
              | Some (None, wire', rs') \<Rightarrow> Some (None, wire', rs')
              | Some (Some bs, wire', rs') \<Rightarrow> Some (Some (take k wire @ bs), wire', rs'))"

text \<open>
  \<open>read_message\<close>: the message (\<open>None\<close> for NULL), as the bytes of the buffer
  before the terminator the function appends, and the bytes left on the connection. A
  failing \<open>malloc\<close> is not modelled.
\<close>

definition read_message :: "sys_ret list \<Rightarrow> string \<Rightarrow> (string option \<times> string) option" where
  "read_message script wire =
     (case read_loop script 2 wire of
        None \<Rightarrow> None
      | Some (None, wire1, rs1) \<Rightarrow> Some (None, wire1)
      | Some (Some hdr, wire1, rs1) \<Rightarrow>
          (let len = of_char (hdr ! 0) * 256 + of_char (hdr ! 1)
           in (case read_loop rs1 len wire1 of
                 None \<Rightarrow> None
               | Some (None, wire2, rs2) \<Rightarrow> Some (None, wire2)
               | Some (Some body, wire2, rs2) \<Rightarrow> Some (Some body, wire2))))"

section \<open>Call client (call.c)\<close>




section \<open>Car selection as the specification states it\<close>




section \<open>Loop invariant of the car selection\<close>



section \<open>Example states\<close>

text \<open>
  The shared record as \<open>create_shared_memory\<close> leaves it for a car whose lowest
  floor is 1, after the monitor has set the heartbeat counter once.
\<close>

definition shm_example :: car_shared_mem where
  "shm_example =
     \<lparr>current_floor = ''1'', destination_floor = ''1'', status = ''Closed'',
      open_button = 0, close_button = 0, safety_system = 1, door_obstruction = 0,
      overload = 0, emergency_stop = 0, individual_service_mode = 0,
      emergency_mode = 0\<rparr>"



section \<open>String comparison\<close>

lemma strcmp_eq_0_iff: "strcmp a b = 0 \<longleftrightarrow> a = b"
  by (induction a b rule: strcmp.induct) auto

lemma strncmp_eq_0_iff: "strncmp a b n = 0 \<longleftrightarrow> take n a = take n b"
  by (simp add: strncmp_def strcmp_eq_0_iff)

lemma take_eq_short: "length l < n \<Longrightarrow> (take n s = l) = (s = l)"
proof
  assume l: "length l < n" and t: "take n s = l"
  then have "min n (length s) = length l" by (metis length_take min.commute)
  with l have "length s < n" by simp
  with t show "s = l" by simp
next
  assume "length l < n" and "s = l"
  then show "take n s = l" by simp
qed

text \<open>
  Against a status name, which is shorter than the array, \<open>strncmp\<close> over the whole
  array is equality.
\<close>

lemma status_is_iff:
  "length l < MAX_STATUS_LEN \<Longrightarrow> (strncmp st l MAX_STATUS_LEN = 0) = (st = l)"
  by (simp add: strncmp_eq_0_iff take_eq_short)







section \<open>Floor labels\<close>

lemma parse_floor_lits:
  "parse_floor ''1'' = \<lparr>ok = True, numeric = 1, is_basement = False\<rparr>"
  "parse_floor ''3'' = \<lparr>ok = True, numeric = 3, is_basement = False\<rparr>"
  "parse_floor ''4'' = \<lparr>ok = True, numeric = 4, is_basement = False\<rparr>"
  "parse_floor ''10'' = \<lparr>ok = True, numeric = 10, is_basement = False\<rparr>"
  by code_simp+

lemma parse_floor_ok_length: "ok (parse_floor f) \<Longrightarrow> length f \<le> 3"
  by (cases "length f = 0 \<or> 3 < length f") (auto simp add: parse_floor_def floor_invalid_def)

text \<open>
  C10. A string that \<open>parse_floor\<close> rejects compares equal (0) to every bound, so
  \<open>is_valid_floor_range\<close> accepts it for all bounds. In particular the Closed branch
  of the car's main loop takes a rejected \<open>destination_floor\<close> that differs from the
  current floor as in range: it leaves the destination as it is and starts to move
  (status \<open>Between\<close>) instead of resetting the destination to the current floor.
\<close>

theorem invalid_floor_passes_range_check:
  assumes "\<not> ok (parse_floor F)"
  shows "compare_floors F lo = 0 \<and> compare_floors F hi = 0
    \<and> is_valid_floor_range F lo hi
    \<and> (status shm = ''Closed'' \<and> open_button shm = 0 \<and> emergency_mode shm = 0
        \<and> destination_floor shm = F
        \<and> strncmp (current_floor shm) F MAX_FLOOR_LEN \<noteq> 0
       \<longrightarrow> status (fst (car_main_begin lowest highest shm)) = ''Between''
           \<and> destination_floor (fst (car_main_begin lowest highest shm)) = F)"
proof -
  have c: "\<And>b. compare_floors F b = 0"
    using assms by (simp add: compare_floors_def Let_def)
  have r: "\<And>a b. is_valid_floor_range F a b"
    by (simp add: is_valid_floor_range_def c)
  have m: "status shm = ''Closed'' \<and> open_button shm = 0 \<and> emergency_mode shm = 0
        \<and> destination_floor shm = F
        \<and> strncmp (current_floor shm) F MAX_FLOOR_LEN \<noteq> 0
       \<longrightarrow> status (fst (car_main_begin lowest highest shm)) = ''Between''
           \<and> destination_floor (fst (car_main_begin lowest highest shm)) = F"
    using r
    by (auto simp add: car_main_begin_def Let_def handle_open_button_def
        handle_close_button_def strncmp_eq_0_iff MAX_STATUS_LEN_def safe_copy_status_def)
  show ?thesis using c r m by blast
qed

theorem invalid_floor_passes_range_check_witness:
  "\<not> ok (parse_floor ''xyz'')
   \<and> compare_floors ''xyz'' ''1'' = 0 \<and> compare_floors ''xyz'' ''10'' = 0
   \<and> is_valid_floor_range ''xyz'' ''1'' ''10''
   \<and> status (fst (car_main_begin ''1'' ''10'' (shm_example\<lparr>destination_floor := ''xyz''\<rparr>)))
       = ''Between''
   \<and> destination_floor (fst (car_main_begin ''1'' ''10''
        (shm_example\<lparr>destination_floor := ''xyz''\<rparr>))) = ''xyz''"
proof -
  have h: "\<not> ok (parse_floor ''xyz'')" by code_simp
  have n: "strncmp (current_floor (shm_example\<lparr>destination_floor := ''xyz''\<rparr>)) ''xyz''
             MAX_FLOOR_LEN \<noteq> 0"
    by (simp add: shm_example_def strncmp_eq_0_iff MAX_FLOOR_LEN_def)
  show ?thesis
    using h n invalid_floor_passes_range_check [OF h, of "''1''" "''10''"
        "shm_example\<lparr>destination_floor := ''xyz''\<rparr>" "''1''" "''10''"]
    by (simp add: shm_example_def)
qed

subsection \<open>Formatting and parsing\<close>

lemma compare_floors_ok:
  "ok (parse_floor a) \<Longrightarrow> ok (parse_floor b) \<Longrightarrow>
     (compare_floors a b \<ge> 0) = (numeric (parse_floor a) \<ge> numeric (parse_floor b))
     \<and> (compare_floors a b \<le> 0) = (numeric (parse_floor a) \<le> numeric (parse_floor b))"
  by (simp add: compare_floors_def Let_def)

lemma is_valid_floor_range_ok:
  "ok (parse_floor f) \<Longrightarrow> ok (parse_floor lo) \<Longrightarrow> ok (parse_floor hi) \<Longrightarrow>
     is_valid_floor_range f lo hi
       = (numeric (parse_floor lo) \<le> numeric (parse_floor f)
          \<and> numeric (parse_floor f) \<le> numeric (parse_floor hi))"
  by (simp add: is_valid_floor_range_def compare_floors_ok)


lemma digit_char_code: "k < 10 \<Longrightarrow> (of_char (char_of (48 + k)) :: nat) = 48 + k"
  by simp

lemma isdigit_not_others:
  assumes "isdigit_c c"
  shows "\<not> isspace_c c" and "c \<noteq> CHR ''-''" and "c \<noteq> CHR ''+''" and "c \<noteq> CHR ''B''"
  using assms by (auto simp add: isdigit_c_def isspace_c_def)

lemma digit_char_facts:
  assumes "k < 10"
  shows "isdigit_c (char_of (48 + k))" and "digit_val (char_of (48 + k)) = int k"
    and "(char_of (48 + k) = CHR ''0'') = (k = 0)"
proof -
  show "isdigit_c (char_of (48 + k))"
    using assms by (simp add: isdigit_c_def)
  show "digit_val (char_of (48 + k)) = int k"
    using assms by (simp add: digit_val_def)
  have "(char_of (48 + k) = CHR ''0'') = ((of_char (char_of (48 + k)) :: nat) = of_char CHR ''0'')"
    by (simp only: of_char_eq_iff)
  also have "\<dots> = (k = 0)" using assms by simp
  finally show "(char_of (48 + k) = CHR ''0'') = (k = 0)" .
qed

lemma strtol_digits:
  assumes "ds \<noteq> []" and "list_all isdigit_c ds"
  shows "strtol ds = (digits_val ds, [])"
proof -
  obtain c cs where ds: "ds = c # cs" using assms(1) by (cases ds) auto
  with assms(2) have c: "isdigit_c c" by simp
  have t: "takeWhile isdigit_c ds = ds" and d: "dropWhile isdigit_c ds = []"
    using assms(2) by (simp_all add: list_all_iff)
  have w: "dropWhile isspace_c ds = ds"
    using isdigit_not_others(1) [OF c] by (simp add: ds)
  show ?thesis
    unfolding strtol_def w
    using isdigit_not_others(2,3) [OF c] assms(1) t d
    by (simp add: ds Let_def)
qed

lemma dec_digits_cases:
  "n < 10 \<Longrightarrow> dec_digits n = [char_of (48 + n)]"
  "10 \<le> n \<Longrightarrow> n < 100 \<Longrightarrow> dec_digits n = [char_of (48 + n div 10), char_of (48 + n mod 10)]"
  "100 \<le> n \<Longrightarrow> n < 1000 \<Longrightarrow>
     dec_digits n = [char_of (48 + n div 100), char_of (48 + n div 10 mod 10),
                     char_of (48 + n mod 10)]"
proof -
  show 1: "n < 10 \<Longrightarrow> dec_digits n = [char_of (48 + n)]" for n
    by (subst dec_digits.simps) simp
  show 2: "10 \<le> n \<Longrightarrow> n < 100 \<Longrightarrow>
      dec_digits n = [char_of (48 + n div 10), char_of (48 + n mod 10)]" for n
    by (subst dec_digits.simps) (simp add: 1)
  show "100 \<le> n \<Longrightarrow> n < 1000 \<Longrightarrow>
     dec_digits n = [char_of (48 + n div 100), char_of (48 + n div 10 mod 10),
                     char_of (48 + n mod 10)]"
    by (subst dec_digits.simps) (simp add: 2 div_mult2_eq [of n 10 10, simplified])
qed



lemma nat_two_digits: "(n::nat) div 10 * 10 + n mod 10 = n"
  by simp

lemma nat_three_digits: "(n::nat) div 100 * 100 + (n div 10 mod 10) * 10 + n mod 10 = n"
proof -
  have "n div 10 = (n div 10) div 10 * 10 + (n div 10) mod 10" by simp
  moreover have "(n div 10) div 10 = n div 100" by (simp add: div_mult2_eq)
  moreover have "n = n div 10 * 10 + n mod 10" by simp
  ultimately show ?thesis by linarith
qed

lemma int_two_digits: "int (n div 10) * 10 + int (n mod 10) = int n"
proof -
  have "int (n div 10 * 10 + n mod 10) = int n" by (simp only: nat_two_digits)
  then show ?thesis by (simp only: of_nat_add of_nat_mult of_nat_numeral)
qed

lemma int_three_digits:
  "int (n div 100) * 100 + int (n div 10 mod 10) * 10 + int (n mod 10) = int n"
proof -
  have "int (n div 100 * 100 + (n div 10 mod 10) * 10 + n mod 10) = int n"
    by (simp only: nat_three_digits)
  then show ?thesis by (simp only: of_nat_add of_nat_mult of_nat_numeral)
qed

lemma digits_val_1: "digits_val [a] = digit_val a"
  by (simp add: digits_val_def)

lemma digits_val_2: "digits_val [a, b] = digit_val a * 10 + digit_val b"
  by (simp add: digits_val_def)

lemma digits_val_3: "digits_val [a, b, c] = digit_val a * 100 + digit_val b * 10 + digit_val c"
  by (simp add: digits_val_def)

lemma dec_digits_props_1:
  assumes "1 \<le> n" and "n < 10"
  shows "dec_digits n \<noteq> [] \<and> length (dec_digits n) \<le> 3
    \<and> list_all isdigit_c (dec_digits n) \<and> digits_val (dec_digits n) = int n
    \<and> hd (dec_digits n) \<noteq> CHR ''0''"
  using assms by (simp add: dec_digits_cases(1) digit_char_facts digits_val_1)

lemma dec_digits_props_2:
  assumes "10 \<le> n" and "n < 100"
  shows "dec_digits n \<noteq> [] \<and> length (dec_digits n) \<le> 3
    \<and> list_all isdigit_c (dec_digits n) \<and> digits_val (dec_digits n) = int n
    \<and> hd (dec_digits n) \<noteq> CHR ''0''"
proof -
  from assms have d: "n div 10 < 10" "n mod 10 < 10" "n div 10 \<noteq> 0" by simp_all
  show ?thesis
    unfolding dec_digits_cases(2) [OF assms] digits_val_2
    using d int_two_digits [of n] by (simp add: digit_char_facts)
qed

lemma dec_digits_props_3:
  assumes "100 \<le> n" and "n < 1000"
  shows "dec_digits n \<noteq> [] \<and> length (dec_digits n) \<le> 3
    \<and> list_all isdigit_c (dec_digits n) \<and> digits_val (dec_digits n) = int n
    \<and> hd (dec_digits n) \<noteq> CHR ''0''"
proof -
  from assms have d: "n div 100 < 10" "n div 10 mod 10 < 10" "n mod 10 < 10" "n div 100 \<noteq> 0"
    by simp_all
  show ?thesis
    unfolding dec_digits_cases(3) [OF assms] digits_val_3
    using d int_three_digits [of n] by (simp add: digit_char_facts)
qed

lemma dec_digits_props:
  assumes "1 \<le> n" and "n < 1000"
  shows "dec_digits n \<noteq> []" and "length (dec_digits n) \<le> 3"
    and "list_all isdigit_c (dec_digits n)" and "digits_val (dec_digits n) = int n"
    and "hd (dec_digits n) \<noteq> CHR ''0''"
proof -
  consider "n < 10" | "10 \<le> n" "n < 100" | "100 \<le> n"
    by linarith
  then have "dec_digits n \<noteq> [] \<and> length (dec_digits n) \<le> 3
    \<and> list_all isdigit_c (dec_digits n) \<and> digits_val (dec_digits n) = int n
    \<and> hd (dec_digits n) \<noteq> CHR ''0''"
  proof cases
    case 1
    with assms show ?thesis by (intro dec_digits_props_1)
  next
    case 2
    then show ?thesis by (intro dec_digits_props_2)
  next
    case 3
    with assms show ?thesis by (intro dec_digits_props_3)
  qed
  then show "dec_digits n \<noteq> []" and "length (dec_digits n) \<le> 3"
    and "list_all isdigit_c (dec_digits n)" and "digits_val (dec_digits n) = int n"
    and "hd (dec_digits n) \<noteq> CHR ''0''"
    by simp_all
qed


lemma dec_digits_short: "n < 100 \<Longrightarrow> length (dec_digits n) \<le> 2"
  by (cases "n < 10") (simp_all add: dec_digits_cases)

lemma hd_digit_not_B:
  assumes "ds \<noteq> []" and "list_all isdigit_c ds"
  shows "hd ds \<noteq> CHR ''B''"
  using assms isdigit_not_others(4) [of "hd ds"] by (cases ds) simp_all

lemma parse_floor_regular:
  assumes "1 \<le> n" and "n < 1000"
  shows "parse_floor (dec_digits n) = \<lparr>ok = True, numeric = int n, is_basement = False\<rparr>"
proof -
  note p = dec_digits_props [OF assms]
  have s: "strtol (dec_digits n) = (int n, [])"
    using strtol_digits [OF p(1) p(3)] p(4) by simp
  have z: "dec_digits n ! 0 \<noteq> CHR ''0''"
    using p(1,5) by (simp add: hd_conv_nth)
  show ?thesis
    unfolding parse_floor_def
    using p(1,2) hd_digit_not_B [OF p(1) p(3)] z assms
    by (simp add: s)
qed

lemma parse_floor_basement:
  assumes "1 \<le> n" and "n < 100"
  shows "parse_floor (CHR ''B'' # dec_digits n)
           = \<lparr>ok = True, numeric = - int n, is_basement = True\<rparr>"
proof -
  from assms have n: "n < 1000" by simp
  note p = dec_digits_props [OF assms(1) n]
  have s: "strtol (dec_digits n) = (int n, [])"
    using strtol_digits [OF p(1) p(3)] p(4) by simp
  have z: "dec_digits n ! 0 \<noteq> CHR ''0''"
    using p(1,5) by (simp add: hd_conv_nth)
  show ?thesis
    unfolding parse_floor_def
    using p(1) dec_digits_short [OF assms(2)] z assms
    by (simp add: s)
qed

lemma floor_to_string_parse:
  assumes "n \<noteq> 0" and "- 99 \<le> n" and "n \<le> 999"
  shows "parse_floor (floor_to_string n (n < 0))
           = \<lparr>ok = True, numeric = n, is_basement = (n < 0)\<rparr>"
proof (cases "n < 0")
  case True
  with assms have k: "1 \<le> nat (- n)" "nat (- n) < 100" by simp_all
  have l: "length (CHR ''B'' # dec_digits (nat (- n))) < 4"
    using dec_digits_short [OF k(2)] by simp
  have "floor_to_string n True = CHR ''B'' # dec_digits (nat (- n))"
    using True assms l by (simp add: floor_to_string_def snprintf4_def Let_def)
  with parse_floor_basement [OF k] True show ?thesis by simp
next
  case False
  with assms have k: "1 \<le> nat n" "nat n < 1000" by simp_all
  have l: "length (dec_digits (nat n)) < 4"
    using dec_digits_props(2) [OF k] by simp
  have "floor_to_string n False = dec_digits (nat n)"
    using False assms l by (simp add: floor_to_string_def snprintf4_def)
  with parse_floor_regular [OF k] False show ?thesis by simp
qed

lemma parse_floor_empty: "\<not> ok (parse_floor [])"
  by (simp add: parse_floor_def floor_invalid_def)

lemma parse_floor_ok_range:
  assumes "ok (parse_floor f)"
  shows "numeric (parse_floor f) \<noteq> 0" and "- 99 \<le> numeric (parse_floor f)"
    and "numeric (parse_floor f) \<le> 999"
  using assms
  by (auto simp add: parse_floor_def floor_invalid_def split: if_splits prod.splits)

lemma invalid_in_every_range: "\<not> ok (parse_floor f) \<Longrightarrow> is_valid_floor_range f lo hi"
  by (simp add: is_valid_floor_range_def compare_floors_def Let_def)

lemma next_floor_towards_number:
  assumes "ok (parse_floor current)" and "ok (parse_floor destination)"
  shows "next_floor_towards current destination lowest highest MAX_FLOOR_LEN =
     (let n = numeric (parse_floor current)
                + (if numeric (parse_floor destination) > numeric (parse_floor current)
                   then 1 else - 1)
      in if is_valid_floor_range (floor_to_string n (n < 0)) lowest highest
         then Some (floor_to_string n (n < 0)) else None)"
  using assms by (simp add: next_floor_towards_def Let_def)

text \<open>
  C4. What \<open>next_floor_towards\<close> returns for valid labels. With \<open>c\<close> and \<open>d\<close>
  the numbers of the current and the destination floor, the step goes to
  \<open>n = c + sign (d - c)\<close> when \<open>d\<close> differs from \<open>c\<close>, but to \<open>n = c - 1\<close>
  when the destination is the current floor: the current floor itself is never
  returned. When \<open>n\<close> is the number of a floor, the result is the label of \<open>n\<close> if
  \<open>n\<close> lies between the lowest and the highest floor, and an error if not. When
  \<open>n\<close> is 0 (a step between 1 and B1) or -100, the function reports success with
  the empty string, since the range check accepts every string that is no label.
\<close>

theorem next_floor_towards_steps:
  assumes "ok (parse_floor current)" and "ok (parse_floor destination)"
    and "ok (parse_floor lowest)" and "ok (parse_floor highest)"
  shows
   "(let c = numeric (parse_floor current); d = numeric (parse_floor destination);
         n = (if d = c then c - 1 else c + sgn (d - c))
     in (n \<noteq> 0 \<and> n \<noteq> - 100 \<longrightarrow>
           parse_floor (floor_to_string n (n < 0))
             = \<lparr>ok = True, numeric = n, is_basement = (n < 0)\<rparr>
           \<and> next_floor_towards current destination lowest highest MAX_FLOOR_LEN
             = (if numeric (parse_floor lowest) \<le> n \<and> n \<le> numeric (parse_floor highest)
                then Some (floor_to_string n (n < 0)) else None))
        \<and> (n = 0 \<or> n = - 100 \<longrightarrow>
           next_floor_towards current destination lowest highest MAX_FLOOR_LEN = Some []))"
proof -
  define c where "c = numeric (parse_floor current)"
  define d where "d = numeric (parse_floor destination)"
  define n where "n = (if d = c then c - 1 else c + sgn (d - c))"
  have n_code: "n = c + (if d > c then 1 else - 1)"
    by (simp add: n_def sgn_if)
  have cr: "- 99 \<le> c" "c \<le> 999" and dr: "- 99 \<le> d" "d \<le> 999"
    using parse_floor_ok_range [OF assms(1)] parse_floor_ok_range [OF assms(2)]
    by (simp_all add: c_def d_def)
  have nr: "- 100 \<le> n" "n \<le> 999"
    using cr dr by (auto simp add: n_code)
  have r: "next_floor_towards current destination lowest highest MAX_FLOOR_LEN =
      (if is_valid_floor_range (floor_to_string n (n < 0)) lowest highest
       then Some (floor_to_string n (n < 0)) else None)"
    using next_floor_towards_number [OF assms(1,2), of lowest highest]
    by (simp add: Let_def n_code c_def d_def)
  have a: "n \<noteq> 0 \<and> n \<noteq> - 100 \<longrightarrow>
           parse_floor (floor_to_string n (n < 0))
             = \<lparr>ok = True, numeric = n, is_basement = (n < 0)\<rparr>
           \<and> next_floor_towards current destination lowest highest MAX_FLOOR_LEN
             = (if numeric (parse_floor lowest) \<le> n \<and> n \<le> numeric (parse_floor highest)
                then Some (floor_to_string n (n < 0)) else None)"
  proof (intro impI, elim conjE)
    assume n0: "n \<noteq> 0" and n1: "n \<noteq> - 100"
    with nr have "- 99 \<le> n" by simp
    from floor_to_string_parse [OF n0 this nr(2)]
    have p: "parse_floor (floor_to_string n (n < 0))
               = \<lparr>ok = True, numeric = n, is_basement = (n < 0)\<rparr>" .
    then have "ok (parse_floor (floor_to_string n (n < 0)))" by simp
    from is_valid_floor_range_ok [OF this assms(3,4)] p
    have "is_valid_floor_range (floor_to_string n (n < 0)) lowest highest
            = (numeric (parse_floor lowest) \<le> n \<and> n \<le> numeric (parse_floor highest))"
      by simp
    with r p show "parse_floor (floor_to_string n (n < 0))
             = \<lparr>ok = True, numeric = n, is_basement = (n < 0)\<rparr>
           \<and> next_floor_towards current destination lowest highest MAX_FLOOR_LEN
             = (if numeric (parse_floor lowest) \<le> n \<and> n \<le> numeric (parse_floor highest)
                then Some (floor_to_string n (n < 0)) else None)"
      by simp
  qed
  have b: "n = 0 \<or> n = - 100 \<longrightarrow>
           next_floor_towards current destination lowest highest MAX_FLOOR_LEN = Some []"
  proof
    assume "n = 0 \<or> n = - 100"
    then have e: "floor_to_string n (n < 0) = []"
      by (auto simp add: floor_to_string_def Let_def)
    show "next_floor_towards current destination lowest highest MAX_FLOOR_LEN = Some []"
      unfolding r e using invalid_in_every_range [OF parse_floor_empty] by simp
  qed
  show ?thesis
    unfolding Let_def c_def [symmetric] d_def [symmetric] n_def [symmetric]
    using a b by blast
qed

lemma parse_floor_more_lits:
  "parse_floor ''5'' = \<lparr>ok = True, numeric = 5, is_basement = False\<rparr>"
  "parse_floor ''7'' = \<lparr>ok = True, numeric = 7, is_basement = False\<rparr>"
  "parse_floor ''B1'' = \<lparr>ok = True, numeric = - 1, is_basement = True\<rparr>"
  "parse_floor ''B2'' = \<lparr>ok = True, numeric = - 2, is_basement = True\<rparr>"
  by code_simp+

text \<open>
  From 3 towards 10 the step is 4, and from 5 towards 7 in a shaft that ends at 5 it is
  an error. From 5 towards 5 the result is floor 4, and from 1 towards B1 it is the
  empty string.
\<close>

theorem next_floor_towards_steps_witness:
  "next_floor_towards ''3'' ''10'' ''1'' ''10'' MAX_FLOOR_LEN = Some ''4''
   \<and> next_floor_towards ''5'' ''7'' ''1'' ''5'' MAX_FLOOR_LEN = None
   \<and> next_floor_towards ''5'' ''5'' ''1'' ''10'' MAX_FLOOR_LEN = Some ''4''
   \<and> next_floor_towards ''1'' ''B1'' ''B2'' ''5'' MAX_FLOOR_LEN = Some []"
proof -
  have p: "ok (parse_floor ''1'')" "ok (parse_floor ''3'')" "ok (parse_floor ''5'')"
    "ok (parse_floor ''7'')" "ok (parse_floor ''10'')" "ok (parse_floor ''B1'')"
    "ok (parse_floor ''B2'')"
    by (simp_all add: parse_floor_lits parse_floor_more_lits)
  have f: "floor_to_string 4 False = ''4''"
    by code_simp
  from next_floor_towards_steps [OF p(2) p(5) p(1) p(5)]
    next_floor_towards_steps [OF p(3) p(4) p(1) p(3)]
    next_floor_towards_steps [OF p(3) p(3) p(1) p(5)]
    next_floor_towards_steps [OF p(1) p(6) p(7) p(3)]
  show ?thesis
    by (simp add: Let_def parse_floor_lits parse_floor_more_lits f)
qed

section \<open>Safety monitor\<close>

text \<open>
  C7. When a cycle of the safety monitor finds \<open>door_obstruction = 1\<close> and the status
  \<open>Closing\<close>, the status after the cycle is \<open>Opening\<close>.
\<close>

theorem obstruction_reverses_closing:
  assumes "door_obstruction shm = 1" and "status shm = ''Closing''"
  shows "status (fst (process_safety_actions shm)) = ''Opening''"
  using assms
  by (simp add: process_safety_actions_def Let_def handle_safety_violation_def
      strncmp_eq_0_iff MAX_STATUS_LEN_def)

theorem obstruction_reverses_closing_witness:
  "door_obstruction (shm_example\<lparr>status := ''Closing'', door_obstruction := 1\<rparr>) = 1
   \<and> status (shm_example\<lparr>status := ''Closing'', door_obstruction := 1\<rparr>) = ''Closing''
   \<and> status (fst (process_safety_actions
        (shm_example\<lparr>status := ''Closing'', door_obstruction := 1\<rparr>))) = ''Opening''"
  using obstruction_reverses_closing
    [of "shm_example\<lparr>status := ''Closing'', door_obstruction := 1\<rparr>"]
  by (simp add: shm_example_def)

text \<open>
  C1. A cycle of the safety monitor sets \<open>safety_system\<close> to 1 only when it is 0; any
  other value is left as it is. So the monitor does not reset a counter that the car
  has raised to 2, and the car's next heartbeat raises it to 3 and sets
  \<open>emergency_mode\<close> although the monitor has just run.
\<close>

theorem monitor_keeps_nonzero_heartbeat:
  "safety_system (fst (process_safety_actions shm))
     = (if safety_system shm = 0 then 1 else safety_system shm)"
  by (simp add: process_safety_actions_def Let_def handle_safety_violation_def)

theorem monitor_keeps_nonzero_heartbeat_witness:
  "safety_system (shm_example\<lparr>safety_system := 2\<rparr>) \<noteq> 0
   \<and> emergency_mode (shm_example\<lparr>safety_system := 2\<rparr>) = 0
   \<and> safety_system (fst (process_safety_actions (shm_example\<lparr>safety_system := 2\<rparr>))) = 2
   \<and> emergency_mode (fst (process_safety_actions (shm_example\<lparr>safety_system := 2\<rparr>))) = 0
   \<and> emergency_mode (fst (network_heartbeat
        (fst (process_safety_actions (shm_example\<lparr>safety_system := 2\<rparr>))))) = 1"
proof -
  have h: "safety_system (shm_example\<lparr>safety_system := 2\<rparr>) \<noteq> 0"
    by (simp add: shm_example_def)
  have e: "fst (process_safety_actions (shm_example\<lparr>safety_system := 2\<rparr>))
             = shm_example\<lparr>safety_system := 2\<rparr>"
    unfolding shm_example_def by code_simp
  show ?thesis
    using h monitor_keeps_nonzero_heartbeat [of "shm_example\<lparr>safety_system := 2\<rparr>"]
    by (simp add: e) (simp add: shm_example_def network_heartbeat_def)
qed

section \<open>SCAN queue\<close>

text \<open>
  C6. For a dispatcher record of a car with status \<open>Between\<close>, current floor 1,
  destination floor 10 and queue [10], the effective position is 2; \<open>add_to_queue\<close>
  of floor 4 gives the queue [10, 4], and \<open>add_to_queue\<close> of floor 3 after that gives
  [10, 4, 3]: both floors are appended, because floor 10 of the up sweep lies above
  them.
\<close>

theorem scan_ordering_scenario:
  assumes "car_status car = ''Between''" and "car_current_floor car = ''1''"
    and "car_destination_floor car = ''10''" and "car_queue car = [''10'']"
  shows "get_car_position_numeric car = 2
    \<and> car_queue (add_to_queue car ''4'') = [''10'', ''4'']
    \<and> car_queue (add_to_queue (add_to_queue car ''4'') ''3'') = [''10'', ''4'', ''3'']"
proof -
  have pos: "\<And>q. get_car_position_numeric (car\<lparr>car_queue := q\<rparr>) = 2"
    using assms
    by (simp add: get_car_position_numeric_def strncmp_eq_0_iff MAX_STATUS_LEN_def
        parse_floor_lits)
  have pos0: "get_car_position_numeric car = 2"
    using pos [of "car_queue car"] by simp
  have a1: "add_to_queue car ''4'' = car\<lparr>car_queue := [''10'', ''4'']\<rparr>"
    using assms pos0
    by (simp add: add_to_queue_def strncmp_eq_0_iff MAX_FLOOR_LEN_def parse_floor_lits
        is_down_sweep_def)
  have a2: "add_to_queue (car\<lparr>car_queue := [''10'', ''4'']\<rparr>) ''3''
              = car\<lparr>car_queue := [''10'', ''4'', ''3'']\<rparr>"
    using assms pos
    by (simp add: add_to_queue_def strncmp_eq_0_iff MAX_FLOOR_LEN_def parse_floor_lits
        is_down_sweep_def)
  show ?thesis using pos0 a1 a2 by simp
qed

theorem scan_ordering_scenario_witness:
  "get_car_position_numeric
     \<lparr>car_name = ''A'', car_lowest = ''1'', car_highest = ''10'', car_current_floor = ''1'',
      car_destination_floor = ''10'', car_status = ''Between'', car_connected = 1,
      car_fd = 4, car_queue = [''10'']\<rparr> = 2
   \<and> car_queue (add_to_queue (add_to_queue
       \<lparr>car_name = ''A'', car_lowest = ''1'', car_highest = ''10'', car_current_floor = ''1'',
        car_destination_floor = ''10'', car_status = ''Between'', car_connected = 1,
        car_fd = 4, car_queue = [''10'']\<rparr> ''4'') ''3'') = [''10'', ''4'', ''3'']"
  using scan_ordering_scenario
    [of "\<lparr>car_name = ''A'', car_lowest = ''1'', car_highest = ''10'',
          car_current_floor = ''1'', car_destination_floor = ''10'',
          car_status = ''Between'', car_connected = 1, car_fd = 4,
          car_queue = [''10'']\<rparr>"]
  by simp

section \<open>Car network thread\<close>

text \<open>
  C3, as the code has it. On a message \<open>FLOOR f\<close>: while the status is \<open>Between\<close>
  the shared record is left as it is; when \<open>f\<close> is the current floor, the status
  becomes \<open>Opening\<close> if it is \<open>Closed\<close>, and the record is left as it is for any
  other status; when the status is not \<open>Between\<close> and \<open>f\<close> is not the current
  floor, \<open>destination_floor\<close> becomes \<open>f\<close> if \<open>parse_floor\<close> accepts \<open>f\<close>,
  and the record is left as it is if \<open>parse_floor\<close> rejects \<open>f\<close>. Every floor
  label is accepted by \<open>parse_floor\<close>. No other field changes in any case.
\<close>

theorem floor_message_effect:
  "(status shm = ''Between'' \<longrightarrow> network_message shm (''FLOOR '' @ f) = shm)
   \<and> (status shm = ''Closed'' \<and> strncmp f (current_floor shm) MAX_FLOOR_LEN = 0
        \<longrightarrow> network_message shm (''FLOOR '' @ f) = shm\<lparr>status := ''Opening''\<rparr>)
   \<and> (status shm \<noteq> ''Closed'' \<and> strncmp f (current_floor shm) MAX_FLOOR_LEN = 0
        \<longrightarrow> network_message shm (''FLOOR '' @ f) = shm)
   \<and> (status shm \<noteq> ''Between'' \<and> strncmp f (current_floor shm) MAX_FLOOR_LEN \<noteq> 0
        \<and> ok (parse_floor f)
        \<longrightarrow> network_message shm (''FLOOR '' @ f) = shm\<lparr>destination_floor := f\<rparr>)
   \<and> (status shm \<noteq> ''Between'' \<and> strncmp f (current_floor shm) MAX_FLOOR_LEN \<noteq> 0
        \<and> \<not> ok (parse_floor f)
        \<longrightarrow> network_message shm (''FLOOR '' @ f) = shm)
   \<and> (n \<noteq> 0 \<and> - 99 \<le> n \<and> n \<le> 999 \<longrightarrow> ok (parse_floor (floor_to_string n (n < 0))))"
proof -
  have m: "network_message shm (''FLOOR '' @ f) = network_floor_message shm f"
    by (simp add: network_message_def strncmp_eq_0_iff)
  have b: "(strncmp (status shm) ''Between'' MAX_STATUS_LEN = 0) = (status shm = ''Between'')"
    by (rule status_is_iff) (simp add: MAX_STATUS_LEN_def)
  have c: "(strncmp (status shm) ''Closed'' MAX_STATUS_LEN = 0) = (status shm = ''Closed'')"
    by (rule status_is_iff) (simp add: MAX_STATUS_LEN_def)
  have t: "ok (parse_floor f) \<Longrightarrow> safe_copy_floor f MAX_FLOOR_LEN = f"
    using parse_floor_ok_length [of f] by (simp add: safe_copy_floor_def MAX_FLOOR_LEN_def)
  have l: "n \<noteq> 0 \<and> - 99 \<le> n \<and> n \<le> 999 \<longrightarrow> ok (parse_floor (floor_to_string n (n < 0)))"
    using floor_to_string_parse [of n] by simp
  show ?thesis
    unfolding m network_floor_message_def b c
    using t l by (auto simp add: safe_copy_status_def MAX_STATUS_LEN_def)
qed

lemma parse_floor_lenient: "ok (parse_floor ''+5'')" "\<not> ok (parse_floor ''x'')"
  by code_simp+

text \<open>
  One message for each case. The last one shows a string that is no floor label and
  that \<open>parse_floor\<close> accepts, since \<open>strtol\<close> reads a sign: it becomes the
  destination.
\<close>

theorem floor_message_effect_witness:
  "network_message (shm_example\<lparr>status := ''Between'', destination_floor := ''3''\<rparr>) ''FLOOR 5''
     = shm_example\<lparr>status := ''Between'', destination_floor := ''3''\<rparr>
   \<and> network_message shm_example ''FLOOR 1'' = shm_example\<lparr>status := ''Opening''\<rparr>
   \<and> network_message (shm_example\<lparr>status := ''Open''\<rparr>) ''FLOOR 1''
       = shm_example\<lparr>status := ''Open''\<rparr>
   \<and> network_message shm_example ''FLOOR 4'' = shm_example\<lparr>destination_floor := ''4''\<rparr>
   \<and> network_message shm_example ''FLOOR x'' = shm_example
   \<and> network_message shm_example ''FLOOR +5'' = shm_example\<lparr>destination_floor := ''+5''\<rparr>"
proof -
  have p4: "ok (parse_floor ''4'')" by (simp add: parse_floor_lits)
  have n4: "strncmp ''4'' (current_floor shm_example) MAX_FLOOR_LEN \<noteq> 0"
       "strncmp ''x'' (current_floor shm_example) MAX_FLOOR_LEN \<noteq> 0"
       "strncmp ''+5'' (current_floor shm_example) MAX_FLOOR_LEN \<noteq> 0"
       "strncmp ''1'' (current_floor shm_example) MAX_FLOOR_LEN = 0"
    by (simp_all add: strncmp_eq_0_iff shm_example_def MAX_FLOOR_LEN_def)
  show ?thesis
    using floor_message_effect
        [of "shm_example\<lparr>status := ''Between'', destination_floor := ''3''\<rparr>" "''5''"]
      floor_message_effect [of shm_example "''1''"]
      floor_message_effect [of "shm_example\<lparr>status := ''Open''\<rparr>" "''1''"]
      floor_message_effect [of shm_example "''4''"]
      floor_message_effect [of shm_example "''x''"]
      floor_message_effect [of shm_example "''+5''"]
      p4 parse_floor_lenient n4
    by (simp add: shm_example_def)
qed

text \<open>
  C3 as stated fails: with the status \<open>Between\<close> the valid floor 5 does not become
  the destination (it stays 3), and with the status \<open>Open\<close> a message naming the
  current floor 1 does not change the destination either.
\<close>

theorem floor_message_counterexample:
  "ok (parse_floor ''5'')
   \<and> status (shm_example\<lparr>status := ''Between'', destination_floor := ''3''\<rparr>) = ''Between''
   \<and> destination_floor (network_message
        (shm_example\<lparr>status := ''Between'', destination_floor := ''3''\<rparr>) ''FLOOR 5'') = ''3''
   \<and> ok (parse_floor ''1'')
   \<and> current_floor (shm_example\<lparr>status := ''Open'', destination_floor := ''3''\<rparr>) = ''1''
   \<and> destination_floor (network_message
        (shm_example\<lparr>status := ''Open'', destination_floor := ''3''\<rparr>) ''FLOOR 1'') = ''3''"
  unfolding shm_example_def by code_simp

section \<open>Emergency mode\<close>

lemma handle_buttons_emergency:
  "emergency_mode (handle_close_button (handle_open_button shm)) = emergency_mode shm"
  by (simp add: handle_open_button_def handle_close_button_def Let_def)

lemma car_main_begin_emergency:
  "emergency_mode (fst (car_main_begin lo hi shm)) = emergency_mode shm"
proof -
  define s where "s = handle_close_button (handle_open_button shm)"
  have e: "emergency_mode s = emergency_mode shm"
    by (simp add: s_def handle_buttons_emergency)
  have "emergency_mode (fst (car_main_begin lo hi shm)) = emergency_mode s"
    unfolding car_main_begin_def Let_def s_def [symmetric] by simp
  with e show ?thesis by simp
qed

lemma car_main_finish_emergency:
  "emergency_mode (car_main_finish lo hi phase elapsed shm) = emergency_mode shm"
  by (cases phase) (simp_all add: car_main_finish_def Let_def split: option.split)

lemma network_message_emergency:
  "emergency_mode (network_message shm msg) = emergency_mode shm"
  by (simp add: network_message_def network_floor_message_def)

lemma network_heartbeat_emergency:
  "emergency_mode shm = 1 \<Longrightarrow> emergency_mode (fst (network_heartbeat shm)) = 1"
  by (simp add: network_heartbeat_def Let_def)

lemma process_safety_actions_emergency:
  "emergency_mode shm = 1 \<Longrightarrow> emergency_mode (fst (process_safety_actions shm)) = 1"
  by (simp add: process_safety_actions_def Let_def handle_safety_violation_def)

lemma internal_main_emergency:
  "operation \<noteq> ''service_on'' \<Longrightarrow>
     emergency_mode (fst (internal_main shm operation)) = emergency_mode shm"
  by (simp add: internal_main_def Let_def strcmp_eq_0_iff)

lemma apply_event_emergency:
  "emergency_mode shm = 1 \<Longrightarrow> e \<noteq> Internal ''service_on'' \<Longrightarrow>
     emergency_mode (apply_event lo hi shm e) = 1"
  by (cases e)
    (simp_all add: car_main_begin_emergency car_main_finish_emergency
      network_message_emergency network_heartbeat_emergency
      process_safety_actions_emergency internal_main_emergency)

lemma run_events_emergency:
  "emergency_mode shm = 1 \<Longrightarrow> Internal ''service_on'' \<notin> set evs \<Longrightarrow>
     emergency_mode (run_events lo hi shm evs) = 1"
  unfolding run_events_def
proof (induction evs arbitrary: shm)
  case Nil
  then show ?case by simp
next
  case (Cons e evs)
  from Cons.prems have "emergency_mode (apply_event lo hi shm e) = 1"
    by (intro apply_event_emergency) auto
  with Cons show ?case by simp
qed

text \<open>
  C2, as the code has it. Once \<open>emergency_mode\<close> is 1, it stays 1 through every
  sequence of critical sections of the car's main loop, the car's network thread, the
  safety monitor and the button tool that holds no \<open>service_on\<close>. The operation
  \<open>service_on\<close> of the button tool sets \<open>individual_service_mode\<close> to 1 and
  \<open>emergency_mode\<close> to 0.
\<close>

theorem emergency_mode_latches_except_service_on:
  "(emergency_mode shm = 1 \<and> Internal ''service_on'' \<notin> set evs
      \<longrightarrow> emergency_mode (run_events lowest highest shm evs) = 1)
   \<and> individual_service_mode (apply_event lowest highest shm (Internal ''service_on'')) = 1
   \<and> emergency_mode (apply_event lowest highest shm (Internal ''service_on'')) = 0"
  using run_events_emergency [of shm evs lowest highest]
  by (simp add: internal_main_def)

theorem emergency_mode_latches_except_service_on_witness:
  "emergency_mode (run_events ''1'' ''10'' (shm_example\<lparr>emergency_mode := 1\<rparr>)
      [SafetyCycle, NetHeartbeat, CarBegin, Internal ''service_off'', NetMessage ''FLOOR 3'',
       CarFinish WaitClosing True, Internal ''open'']) = 1
   \<and> emergency_mode (apply_event ''1'' ''10'' (shm_example\<lparr>emergency_mode := 1\<rparr>)
        (Internal ''service_on'')) = 0"
  using emergency_mode_latches_except_service_on
    [of "shm_example\<lparr>emergency_mode := 1\<rparr>"
        "[SafetyCycle, NetHeartbeat, CarBegin, Internal ''service_off'', NetMessage ''FLOOR 3'',
          CarFinish WaitClosing True, Internal ''open'']" "''1''" "''10''"]
  by (simp add: shm_example_def)

text \<open>
  C2 as stated fails: the button tool's \<open>service_on\<close> takes a record in emergency
  mode back to \<open>emergency_mode = 0\<close>.
\<close>

theorem service_on_clears_emergency_counterexample:
  "emergency_mode (shm_example\<lparr>emergency_mode := 1\<rparr>) = 1
   \<and> emergency_mode (fst (internal_main (shm_example\<lparr>emergency_mode := 1\<rparr>) ''service_on''))
       = 0"
  by (simp add: shm_example_def internal_main_def)

section \<open>Call client\<close>




















section \<open>Message framing\<close>

lemma write_loop_done:
  "write_loop rs buf = Some (True, out, rs') \<Longrightarrow> out = buf"
proof (induction rs buf arbitrary: out rs' rule: write_loop.induct)
  case (1 rs)
  then show ?case by simp
next
  case (2 b bs)
  then show ?case by simp
next
  case (3 e rs b bs)
  then show ?case by (auto split: if_splits)
next
  case (4 n rs b bs)
  from "4.prems" have n: "n \<noteq> 0" by (auto split: if_splits)
  with "4.prems" obtain out1 where
    w: "write_loop rs (drop n (b # bs)) = Some (True, out1, rs')"
    and o: "out = take n (b # bs) @ out1"
    by (auto split: option.splits)
  from "4.IH" [OF n w] have "out1 = drop n (b # bs)" .
  with o show ?case by simp
qed

lemma write_loop_whole:
  "\<exists>rs'. write_loop (Ret (length buf) # rs) buf = Some (True, buf, rs')"
  by (cases buf) simp_all

lemma read_loop_done:
  "read_loop rs w wire = Some (Some bs, wire', rs') \<Longrightarrow>
     bs = take w wire \<and> wire' = drop w wire \<and> w \<le> length wire"
proof (induction rs w wire arbitrary: bs wire' rs' rule: read_loop.induct)
  case (1 rs wire)
  then show ?case by simp
next
  case (2 w wire)
  then show ?case by simp
next
  case (3 e rs w wire)
  then show ?case by (auto split: if_splits)
next
  case (4 n rs w wire)
  define k where "k = min n (min (Suc w) (length wire))"
  from "4.prems" have k0: "k \<noteq> 0"
    by (auto simp add: k_def Let_def split: if_splits)
  with "4.prems" obtain bs1 where
    r: "read_loop rs (Suc w - k) (drop k wire) = Some (Some bs1, wire', rs')"
    and b: "bs = take k wire @ bs1"
    by (auto simp add: k_def [symmetric] Let_def split: option.splits)
  from "4.IH" [OF k_def k0 r]
  have ih: "bs1 = take (Suc w - k) (drop k wire)" "wire' = drop (Suc w - k) (drop k wire)"
    "Suc w - k \<le> length (drop k wire)"
    by simp_all
  have kw: "k \<le> Suc w" "k \<le> length wire" by (simp_all add: k_def)
  have "take k wire @ take (Suc w - k) (drop k wire) = take (Suc w) wire"
    using kw by (metis le_add_diff_inverse take_add)
  moreover have "drop (Suc w - k) (drop k wire) = drop (Suc w) wire"
    using kw by simp
  moreover have "Suc w \<le> length wire"
    using ih(3) kw by simp
  ultimately show ?case using b ih by simp
qed

lemma read_loop_whole:
  "w \<le> length wire \<Longrightarrow>
     \<exists>rs'. read_loop (Ret w # rs) w wire = Some (Some (take w wire), drop w wire, rs')"
  by (cases w) (simp_all add: Let_def min_def)

lemma frame_header_length: "length (frame_header x) = 2"
  by (simp add: frame_header_def Let_def)

lemma frame_header_decode:
  assumes "length x \<le> 65535"
  shows "of_char (frame_header x ! 0) * 256 + of_char (frame_header x ! 1) = length x"
proof -
  have "length x div 256 < 256" using assms by simp
  then show ?thesis using assms by (simp add: frame_header_def Let_def)
qed

lemma write_message_wire:
  assumes "write_message ws x = Some (0, wire)"
  shows "wire = frame_header x @ x"
proof -
  from assms obtain out1 rs1 where
    h: "write_loop ws (frame_header x) = Some (True, out1, rs1)"
    by (auto simp add: write_message_def split: option.splits if_splits)
  with assms obtain out2 rs2 where
    b: "write_loop rs1 x = Some (True, out2, rs2)" and w: "wire = out1 @ out2"
    by (auto simp add: write_message_def split: option.splits if_splits)
  from write_loop_done [OF h] write_loop_done [OF b] w show ?thesis by simp
qed

lemma read_message_frame:
  assumes "length x \<le> 65535"
    and "read_message rs (frame_header x @ x @ later) = Some (Some m, rest)"
  shows "m = x \<and> rest = later"
proof -
  from assms(2) obtain hdr wire1 rs1 where
    h: "read_loop rs 2 (frame_header x @ x @ later) = Some (Some hdr, wire1, rs1)"
    by (auto simp add: read_message_def split: option.splits)
  from read_loop_done [OF h] have hd: "hdr = frame_header x" and w1: "wire1 = x @ later"
    by (simp_all add: frame_header_length)
  have len: "of_char (hdr ! 0) * 256 + of_char (hdr ! 1) = length x"
    unfolding hd by (rule frame_header_decode [OF assms(1)])
  from assms(2) h len obtain rs2 where
    b: "read_loop rs1 (length x) wire1 = Some (Some m, rest, rs2)"
    by (auto simp add: read_message_def Let_def split: option.splits)
  from read_loop_done [OF b] w1 show ?thesis by simp
qed

lemma write_message_whole:
  "write_message [Ret 2, Ret (length x)] x = Some (0, frame_header x @ x)"
proof -
  have h: "write_loop [Ret 2, Ret (length x)] (frame_header x)
             = Some (True, frame_header x, [Ret (length x)])"
    by (simp add: frame_header_def Let_def)
  obtain rs' where b: "write_loop [Ret (length x)] x = Some (True, x, rs')"
    using write_loop_whole [of x "[]"] by blast
  show ?thesis
    by (simp add: write_message_def h b)
qed

lemma read_message_whole:
  assumes "length x \<le> 65535"
  shows "read_message [Ret 2, Ret (length x)] (frame_header x @ x @ later) = Some (Some x, later)"
proof -
  have "read_loop [Ret 2, Ret (length x)] (Suc (Suc 0)) (frame_header x @ x @ later)
             = Some (Some (frame_header x), x @ later, [Ret (length x)])"
    by (simp add: frame_header_def Let_def)
  then have h: "read_loop [Ret 2, Ret (length x)] 2 (frame_header x @ x @ later)
             = Some (Some (frame_header x), x @ later, [Ret (length x)])"
    by (simp add: numeral_2_eq_2)
  obtain rs' where b: "read_loop [Ret (length x)] (length x) (x @ later) = Some (Some x, later, rs')"
    using read_loop_whole [of "length x" "x @ later" "[]"] by auto
  have len: "of_char (frame_header x ! 0) * 256 + of_char (frame_header x ! 1) = length x"
    by (rule frame_header_decode [OF assms])
  show ?thesis
    unfolding read_message_def h by (simp only: option.case prod.case Let_def len b)
qed

text \<open>
  C8. For a message \<open>x\<close> of at most 65535 bytes (the content of a C string, so
  with no NUL byte in it): whenever \<open>write_message\<close>
  returns 0, whatever the kernel's answers on the way, and \<open>read_message\<close> on the
  bytes written (and any bytes after them) returns a message, that message is \<open>x\<close>
  and the bytes after it are left. With answers that transfer each buffer at once,
  \<open>write_message\<close> does return 0 and \<open>read_message\<close> does return \<open>x\<close>.
\<close>

theorem framing_round_trip:
  assumes "length x \<le> 65535" and "CHR 0x00 \<notin> set x"
  shows "(write_message ws x = Some (0, wire) \<and> read_message rs (wire @ later) = Some (Some m, rest)
            \<longrightarrow> m = x \<and> rest = later)
    \<and> (\<exists>wire'. write_message [Ret 2, Ret (length x)] x = Some (0, wire')
         \<and> read_message [Ret 2, Ret (length x)] (wire' @ later) = Some (Some x, later))"
proof -
  have a: "write_message ws x = Some (0, wire) \<and> read_message rs (wire @ later) = Some (Some m, rest)
            \<longrightarrow> m = x \<and> rest = later"
  proof (intro impI, elim conjE)
    assume w: "write_message ws x = Some (0, wire)"
      and r: "read_message rs (wire @ later) = Some (Some m, rest)"
    from write_message_wire [OF w] r
    have "read_message rs (frame_header x @ x @ later) = Some (Some m, rest)" by simp
    from read_message_frame [OF assms(1) this] show "m = x \<and> rest = later" .
  qed
  have b: "\<exists>wire'. write_message [Ret 2, Ret (length x)] x = Some (0, wire')
         \<and> read_message [Ret 2, Ret (length x)] (wire' @ later) = Some (Some x, later)"
    using write_message_whole [of x] read_message_whole [OF assms(1), of later] by simp
  show ?thesis using a b by blast
qed

lemma char_of_header_bytes: "char_of (0::nat) = CHR 0x00" "char_of (8::nat) = CHR 0x08"
  by code_simp+

lemma frame_header_example: "frame_header ''CALL 6 8'' = [CHR 0x00, CHR 0x08]"
  by (simp add: frame_header_def Let_def char_of_header_bytes)

theorem framing_round_trip_witness:
  "write_message [Ret 1, Err EINTR, Ret 1, Ret 3, Err EAGAIN, Ret 9] ''CALL 6 8''
     = Some (0, [CHR 0x00, CHR 0x08] @ ''CALL 6 8'')
   \<and> read_message [Ret 2, Err EINTR, Ret 5, Ret 7] ([CHR 0x00, CHR 0x08] @ ''CALL 6 8'' @ ''next'')
     = Some (Some ''CALL 6 8'', ''next'')"
proof -
  have l: "length ''CALL 6 8'' \<le> (65535::nat)" by simp
  have z: "CHR 0x00 \<notin> set ''CALL 6 8''" by simp
  have w: "write_message [Ret 1, Err EINTR, Ret 1, Ret 3, Err EAGAIN, Ret 9] ''CALL 6 8''
     = Some (0, [CHR 0x00, CHR 0x08] @ ''CALL 6 8'')"
    by (simp add: write_message_def frame_header_example)
  have r: "read_message [Ret 2, Err EINTR, Ret 5, Ret 7]
             (([CHR 0x00, CHR 0x08] @ ''CALL 6 8'') @ ''next'')
     = Some (Some ''CALL 6 8'', ''next'')"
    by code_simp
  from framing_round_trip [OF l z, of "[Ret 1, Err EINTR, Ret 1, Ret 3, Err EAGAIN, Ret 9]"
      "[CHR 0x00, CHR 0x08] @ ''CALL 6 8''" "[Ret 2, Err EINTR, Ret 5, Ret 7]" "''next''"
      "''CALL 6 8''" "''next''"] w r
  show ?thesis by simp
qed

section \<open>Car selection\<close>















end
